theory Spec2Isabelle
  imports Main
begin

section \<open>Python values used by Inicio.py\<close>

text \<open>
  Text is a \<^typ>\<open>string\<close>; a character outside ASCII in a literal of the source is
  written as its UTF-8 bytes. A raised exception is a value: its class name and the text
  that \<^verbatim>\<open>str(e)\<close> gives. Every exception of the model is an instance of Python's
  \<^verbatim>\<open>Exception\<close>, which is the class the handlers of the source catch.
\<close>

datatype py_exception = PyException (exc_class: string) (exc_str: string)

definition KeyError :: "string \<Rightarrow> py_exception" where
  "KeyError k = PyException ''KeyError'' ([CHR 0x27] @ k @ [CHR 0x27])"

definition IndexError :: py_exception where
  "IndexError = PyException ''IndexError'' ''list index out of range''"

definition AttributeError :: "string \<Rightarrow> string \<Rightarrow> py_exception" where
  "AttributeError cls attr = PyException ''AttributeError''
     ([CHR 0x27] @ cls @ [CHR 0x27] @ '' object has no attribute '' @ [CHR 0x27] @ attr @ [CHR 0x27])"

definition FileNotFoundError :: "string \<Rightarrow> py_exception" where
  "FileNotFoundError p = PyException ''FileNotFoundError''
     (''[Errno 2] No such file or directory: '' @ [CHR 0x27] @ p @ [CHR 0x27])"

text \<open>
  A Python \<^verbatim>\<open>dict\<close> keeps its keys in insertion order; assigning to a key that is
  present replaces the value where the key stands, assigning to a new key appends it.
  The model is an association list, \<open>items\<close> being the list itself.
\<close>

type_synonym 'v dict = "(string \<times> 'v) list"

fun setitem :: "'v dict \<Rightarrow> string \<Rightarrow> 'v \<Rightarrow> 'v dict" where
  "setitem [] k v = [(k, v)]"
| "setitem ((k', v') # d) k v = (if k' = k then (k', v) # d else (k', v') # setitem d k v)"

definition getitem :: "'v dict \<Rightarrow> string \<Rightarrow> py_exception + 'v" where
  "getitem d k = (case map_of d k of None \<Rightarrow> Inl (KeyError k) | Some v \<Rightarrow> Inr v)"

definition keys :: "'v dict \<Rightarrow> string list" where
  "keys d = map fst d"

definition digit_char :: "nat \<Rightarrow> char" where
  "digit_char d = ''0123456789'' ! d"

fun str_nat :: "nat \<Rightarrow> string" where
  "str_nat n = (if n < 10 then [digit_char n] else str_nat (n div 10) @ [digit_char (n mod 10)])"

declare str_nat.simps [simp del]

definition zfill :: "nat \<Rightarrow> string \<Rightarrow> string" where
  "zfill k s = replicate (k - length s) CHR ''0'' @ s"

text \<open>\<^verbatim>\<open>datetime.now()\<close> and the two \<^verbatim>\<open>strftime\<close> formats of the source.\<close>

record datetime =
  year :: nat
  month :: nat
  day :: nat
  hour :: nat
  minute :: nat
  second :: nat

definition strftime_iso :: "datetime \<Rightarrow> string" where
  \<comment> \<open>\<^verbatim>\<open>strftime("%Y-%m-%d %H:%M:%S")\<close>\<close>
  "strftime_iso t =
     zfill 4 (str_nat (year t)) @ ''-'' @ zfill 2 (str_nat (month t)) @ ''-'' @
     zfill 2 (str_nat (day t)) @ '' '' @ zfill 2 (str_nat (hour t)) @ '':'' @
     zfill 2 (str_nat (minute t)) @ '':'' @ zfill 2 (str_nat (second t))"


text \<open>\<^verbatim>\<open>base64.standard_b64encode(...).decode("utf-8")\<close> on a byte string.\<close>

definition b64char :: "nat \<Rightarrow> char" where
  "b64char n =
     ''ABCDEFGHIJKLMNOPQRSTUVWXYZabcdefghijklmnopqrstuvwxyz0123456789+/'' ! n"

fun standard_b64encode :: "string \<Rightarrow> string" where
  "standard_b64encode (a # b # c # rest) =
     (let x = (of_char a :: nat); y = (of_char b :: nat); z = (of_char c :: nat)
      in [b64char (x div 4), b64char ((x mod 4) * 16 + y div 16),
          b64char ((y mod 16) * 4 + z div 64), b64char (z mod 64)])
     @ standard_b64encode rest"
| "standard_b64encode [a, b] =
     (let x = (of_char a :: nat); y = (of_char b :: nat)
      in [b64char (x div 4), b64char ((x mod 4) * 16 + y div 16),
          b64char ((y mod 16) * 4), CHR ''=''])"
| "standard_b64encode [a] =
     (let x = (of_char a :: nat)
      in [b64char (x div 4), b64char ((x mod 4) * 16), CHR ''='', CHR ''=''])"
| "standard_b64encode [] = []"

section \<open>The world outside the program\<close>

text \<open>
  The file system, the remote document-understanding service and the wall clock are the
  state the program runs in. Files are kept by path string, in the order in which the
  directory enumerates them. \<open>open_error\<close> gives the paths the operating system refuses
  to open (a directory, a missing permission). The service may answer every request
  differently: \<open>service w n r\<close> is its answer to request \<open>r\<close> when \<open>n\<close> requests were
  sent before; a failure of the transport, of the authentication or of the service is an
  exception. The clock is read through \<open>clock w n\<close>, the time at its \<open>n\<close>-th reading.
\<close>

datatype open_mode = Rb | Wb

record request =
  req_api_key :: string
  req_model :: string
  req_max_tokens :: nat
  req_media_type :: string
  req_data :: string
  req_text :: string

datatype content_block = TextBlock string | OtherBlock string

datatype message = Message (content: "content_block list")

record world =
  files :: "string dict"
  open_error :: "string \<Rightarrow> open_mode \<Rightarrow> py_exception option"
  service :: "nat \<Rightarrow> request \<Rightarrow> py_exception + message"
  sent :: "request list"
  clock :: "nat \<Rightarrow> datetime"
  ticks :: nat

definition read_bytes :: "world \<Rightarrow> string \<Rightarrow> py_exception + string" where
  \<comment> \<open>\<^verbatim>\<open>with open(p, "rb") as f: f.read()\<close>\<close>
  "read_bytes w p =
     (case open_error w p Rb of
        Some e \<Rightarrow> Inl e
      | None \<Rightarrow> (case map_of (files w) p of
                   None \<Rightarrow> Inl (FileNotFoundError p)
                 | Some data \<Rightarrow> Inr data))"


definition messages_create :: "world \<Rightarrow> request \<Rightarrow> (py_exception + message) \<times> world" where
  "messages_create w r = (service w (length (sent w)) r, w\<lparr>sent := sent w @ [r]\<rparr>)"

definition datetime_now :: "world \<Rightarrow> datetime \<times> world" where
  "datetime_now w = (clock w (ticks w), w\<lparr>ticks := Suc (ticks w)\<rparr>)"

text \<open>
  Paths are strings in the normal form of \<^verbatim>\<open>pathlib\<close>. \<open>path_name\<close> is
  \<^verbatim>\<open>Path.name\<close>, the last component. \<open>glob_pdf w folder\<close> is
  \<^verbatim>\<open>list(Path(folder).glob("*.pdf"))\<close>: the files directly inside the folder whose
  name ends in \<^verbatim>\<open>.pdf\<close> (in lower case, as on a POSIX system), in enumeration
  order, each as \<^verbatim>\<open>str\<close> of its path. \<open>path_join\<close> is the operator \<^verbatim>\<open>/\<close>
  with a plain file name on its right.
\<close>

definition path_name :: "string \<Rightarrow> string" where
  "path_name p = rev (takeWhile (\<lambda>c. c \<noteq> CHR ''/'') (rev p))"


definition child_of :: "string \<Rightarrow> string \<Rightarrow> bool" where
  "child_of folder p \<longleftrightarrow>
     take (Suc (length folder)) p = folder @ ''/'' \<and>
     CHR ''/'' \<notin> set (drop (Suc (length folder)) p)"

definition matches_pdf :: "string \<Rightarrow> bool" where
  "matches_pdf name \<longleftrightarrow> drop (length name - 4) name = ''.pdf''"

definition glob_pdf :: "world \<Rightarrow> string \<Rightarrow> string list" where
  "glob_pdf w folder =
     filter (\<lambda>p. child_of folder p \<and> matches_pdf (path_name p)) (keys (files w))"

section \<open>Inicio.py\<close>

definition PDF_FOLDER :: string where
  "PDF_FOLDER = ''facturas''"

definition PROMPT_EXTRACCION_IVA :: string where
  "PROMPT_EXTRACCION_IVA =
    ''Analiza esta factura y extrae '' @ [CHR 0xC3, CHR 0x9A] @ ''NICAMENTE las bases imponibles del IVA de manera global.\<newline>'' @
    ''\<newline>'' @
    ''Debes extraer la informaci'' @ [CHR 0xC3, CHR 0xB3] @ ''n en este formato exacto:\<newline>'' @
    ''\<newline>'' @
    ''Tarifa                          Base Imponible     Impuesto Calculado      Total con Impuesto \<newline>'' @
    ''IVA 19%                     $X,XXX.XX               $X,XXX.XX                      $X,XXX.XX\<newline>'' @
    ''Excluidos (0%)     $X,XXX.XX             $X,XXX.XX                      $X,XXX.XX\<newline>'' @
    ''TOTAL                        $X,XXX.XX             $X,XXX.XX                      $X,XXX.XX\<newline>'' @
    ''\<newline>'' @
    ''IMPORTANTE:\<newline>'' @
    ''- Busca las bases consolidadas/totales del IVA, no detalles l'' @ [CHR 0xC3, CHR 0xAD] @ ''nea por l'' @ [CHR 0xC3, CHR 0xAD] @ ''nea\<newline>'' @
    ''- Si hay IVA 5%, incl'' @ [CHR 0xC3, CHR 0xBA] @ ''yelo tambi'' @ [CHR 0xC3, CHR 0xA9] @ ''n\<newline>'' @
    ''- Usa el formato de moneda con separadores de miles y dos decimales\<newline>'' @
    ''- Si no encuentras alguna tarifa, om'' @ [CHR 0xC3, CHR 0xAD] @ ''tela\<newline>'' @
    ''- Presenta SOLO la tabla, sin explicaciones adicionales''"

definition pdf_to_base64 :: "world \<Rightarrow> string \<Rightarrow> py_exception + string" where
  "pdf_to_base64 w pdf_path =
     (case read_bytes w pdf_path of
        Inl e \<Rightarrow> Inl e
      | Inr data \<Rightarrow> Inr (standard_b64encode data))"

definition extract_iva_from_pdf ::
  "world \<Rightarrow> string \<Rightarrow> string \<Rightarrow> (py_exception + string) \<times> world" where
  "extract_iva_from_pdf w pdf_path api_key =
     (case pdf_to_base64 w pdf_path of
        Inl e \<Rightarrow> (Inl e, w)
      | Inr pdf_data \<Rightarrow>
          (case messages_create w
                  \<lparr>req_api_key = api_key, req_model = ''claude-sonnet-4-20250514'',
                   req_max_tokens = 2000, req_media_type = ''application/pdf'',
                   req_data = pdf_data, req_text = PROMPT_EXTRACCION_IVA\<rparr> of
             (Inl e, w') \<Rightarrow> (Inl e, w')
           | (Inr msg, w') \<Rightarrow>
               (case content msg of
                  [] \<Rightarrow> (Inl IndexError, w')
                | TextBlock t # _ \<Rightarrow> (Inr t, w')
                | OtherBlock cls # _ \<Rightarrow> (Inl (AttributeError cls ''text''), w'))))"

text \<open>
  The run keeps the mapping under construction, the world, and a log of what it did in
  program order: the calls on the two Streamlit widgets and the stores into
  \<^verbatim>\<open>results\<close>. A call on a widget puts its event into the log and does not
  raise. The value given to the progress bar is the quotient of two whole numbers, kept
  as the pair.
\<close>

datatype event =
    St_progress nat
  | St_empty
  | Status_text string
  | Store string
  | Progress_value nat nat
  | Status_empty
  | Progress_empty
  | St_success string
  | St_error string
  | St_code string
  | St_text string
  | St_caption string
  | St_metric string nat

type_synonym outcome = "string dict"

type_synonym results = "outcome dict"

record run_state =
  res :: results
  wld :: world
  log :: "event list"

definition emit :: "event \<Rightarrow> run_state \<Rightarrow> run_state" where
  "emit e s = s\<lparr>log := log s @ [e]\<rparr>"

definition store :: "string \<Rightarrow> outcome \<Rightarrow> run_state \<Rightarrow> run_state" where
  \<comment> \<open>\<^verbatim>\<open>results[name] = outcome\<close>\<close>
  "store name r s = s\<lparr>res := setitem (res s) name r, log := log s @ [Store name]\<rparr>"

definition status_line :: "string \<Rightarrow> nat \<Rightarrow> nat \<Rightarrow> string" where
  \<comment> \<open>\<^verbatim>\<open>f"Procesando: {pdf_path.name} ({idx + 1}/{len(pdf_files)})"\<close>\<close>
  "status_line pdf_path idx n =
     ''Procesando: '' @ path_name pdf_path @ '' ('' @ str_nat (idx + 1) @ ''/'' @
     str_nat n @ '')''"

definition attempt :: "string \<Rightarrow> string \<Rightarrow> run_state \<Rightarrow> run_state" where
  \<comment> \<open>the \<^verbatim>\<open>try\<close> statement of the loop\<close>
  "attempt api_key pdf_path s =
     (case extract_iva_from_pdf (wld s) pdf_path api_key of
        (Inr result, w1) \<Rightarrow>
          (case datetime_now w1 of (now, w2) \<Rightarrow>
             store (path_name pdf_path)
               [(''status'', ''success''), (''data'', result),
                (''timestamp'', strftime_iso now)]
               (s\<lparr>wld := w2\<rparr>))
      | (Inl e, w1) \<Rightarrow>
          (case datetime_now w1 of (now, w2) \<Rightarrow>
             store (path_name pdf_path)
               [(''status'', ''error''), (''data'', ''Error: '' @ exc_str e),
                (''timestamp'', strftime_iso now)]
               (s\<lparr>wld := w2\<rparr>)))"

definition loop_body :: "string \<Rightarrow> nat \<Rightarrow> run_state \<Rightarrow> nat \<times> string \<Rightarrow> run_state" where
  "loop_body api_key n s ip =
     (case ip of (idx, pdf_path) \<Rightarrow>
        emit (Progress_value (idx + 1) n)
          (attempt api_key pdf_path
             (emit (Status_text (status_line pdf_path idx n)) s)))"

definition process_all_invoices ::
  "world \<Rightarrow> string \<Rightarrow> string \<Rightarrow> results option \<times> world \<times> event list" where
  "process_all_invoices w folder_path api_key =
     (let pdf_files = glob_pdf w folder_path
      in if pdf_files = [] then (None, w, [])
         else
           (let s0 = emit St_empty (emit (St_progress 0) \<lparr>res = [], wld = w, log = []\<rparr>);
                s1 = foldl (loop_body api_key (length pdf_files)) s0 (enumerate 0 pdf_files);
                s2 = emit Progress_empty (emit Status_empty s1)
            in (Some (res s2), wld s2, log s2)))"

definition create_summary_row :: "string \<Rightarrow> outcome \<Rightarrow> py_exception + string dict" where
  \<comment> \<open>the dictionary appended to \<^verbatim>\<open>summary\<close> for one item\<close>
  "create_summary_row filename result =
     (case getitem result ''status'' of
        Inl e \<Rightarrow> Inl e
      | Inr status \<Rightarrow>
          (case getitem result ''timestamp'' of
             Inl e \<Rightarrow> Inl e
           | Inr timestamp \<Rightarrow>
               (case getitem result ''data'' of
                  Inl e \<Rightarrow> Inl e
                | Inr data \<Rightarrow>
                    Inr [(''Factura'', filename), (''Estado'', status),
                         (''Fecha Procesamiento'', timestamp), (''Resultado'', data)])))"

fun summary_loop :: "string dict list \<Rightarrow> results \<Rightarrow> py_exception + string dict list" where
  "summary_loop summary [] = Inr summary"
| "summary_loop summary ((filename, result) # rest) =
     (case create_summary_row filename result of
        Inl e \<Rightarrow> Inl e
      | Inr row \<Rightarrow> summary_loop (summary @ [row]) rest)"

text \<open>
  \<^verbatim>\<open>pd.DataFrame(summary)\<close> is kept as the list of row dictionaries it is built from.
\<close>

datatype dataframe = DataFrame (records: "string dict list")

definition create_summary_table :: "results \<Rightarrow> py_exception + dataframe" where
  "create_summary_table results =
     (case summary_loop [] results of
        Inl e \<Rightarrow> Inl e
      | Inr summary \<Rightarrow> Inr (DataFrame summary))"

text \<open>
  The rest of the script runs on every interaction, on \<^verbatim>\<open>st.session_state\<close>. An
  exception that no handler catches ends the script run; what was put on the page until
  then stays there. The functions below return what they have put on the page, and the
  exception that ended them if there was one.
\<close>

record session =
  ss_results :: "results option"
  ss_processed_at :: "string option"

definition TypeError_len_None :: py_exception where
  "TypeError_len_None =
     PyException ''TypeError'' (''object of type '' @ [CHR 0x27] @ ''NoneType'' @ [CHR 0x27] @ '' has no len()'')"

definition lower_char :: "char \<Rightarrow> char" where
  "lower_char c =
     (let n = (of_char c :: nat) in if 65 \<le> n \<and> n \<le> 90 then char_of (n + 32) else c)"

definition str_lower :: "string \<Rightarrow> string" where
  \<comment> \<open>\<^verbatim>\<open>str.lower\<close>, on the letters of ASCII\<close>
  "str_lower s = map lower_char s"

fun str_contains :: "string \<Rightarrow> string \<Rightarrow> bool" where
  \<comment> \<open>\<^verbatim>\<open>needle in hay\<close>\<close>
  "str_contains needle [] = (needle = [])"
| "str_contains needle (c # cs) =
     (take (length needle) (c # cs) = needle \<or> str_contains needle cs)"

definition report_failure :: "string \<Rightarrow> py_exception \<Rightarrow> event list" where
  \<comment> \<open>the two \<^verbatim>\<open>except\<close> blocks of the script, which differ in the first message\<close>
  "report_failure headline e =
     St_error (headline @ exc_str e) #
     (if str_contains ''invalid x-api-key'' (str_lower (exc_str e)) \<or>
         str_contains ''authentication'' (str_lower (exc_str e))
      then [St_error ([CHR 0xF0, CHR 0x9F, CHR 0x94, CHR 0x91] @ '' API Key inv'' @
                      [CHR 0xC3, CHR 0xA1] @
                      ''lida. Verifica tu clave en el panel lateral.'')]
      else [])"

definition process_button ::
  "world \<Rightarrow> session \<Rightarrow> string list \<Rightarrow> string \<Rightarrow> world \<times> session \<times> event list" where
  \<comment> \<open>the button "Procesar todas las facturas"; \<open>pdf_files\<close> is the sidebar's listing\<close>
  "process_button w ss pdf_files api_key =
     (if pdf_files = []
      then (w, ss, [St_error ([CHR 0xE2, CHR 0x9D, CHR 0x8C] @ '' No hay facturas en la carpeta'')])
      else
        (case process_all_invoices w PDF_FOLDER api_key of
           (None, w1, evs) \<Rightarrow>
             (w1, ss,
              evs @ report_failure ([CHR 0xE2, CHR 0x9D, CHR 0x8C] @ '' Error en el procesamiento: '')
                      TypeError_len_None)
         | (Some results, w1, evs) \<Rightarrow>
             (case datetime_now w1 of
                (now, w2) \<Rightarrow>
                  (w2,
                   ss\<lparr>ss_results := Some results, ss_processed_at := Some (strftime_iso now)\<rparr>,
                   evs @ [St_success ([CHR 0xE2, CHR 0x9C, CHR 0x85] @
                            '' Procesamiento completado: '' @ str_nat (length results) @
                            '' facturas'')]))))"

definition report_header :: "string \<Rightarrow> string" where
  "report_header processed_at =
     ''EXTRACCI'' @ [CHR 0xC3, CHR 0x93] @ ''N DE BASES DE IVA\<newline>Fecha: '' @ processed_at @
     ''\<newline>\<newline>'' @ replicate 80 CHR ''='' @ ''\<newline>\<newline>''"

definition section_text :: "string \<Rightarrow> string \<Rightarrow> string \<Rightarrow> string" where
  "section_text filename status data =
     ''FACTURA: '' @ filename @ ''\<newline>'' @ ''Estado: '' @ status @ ''\<newline>'' @
     replicate 80 CHR ''-'' @ ''\<newline>'' @ data @ ''\<newline>'' @
     replicate 80 CHR ''='' @ ''\<newline>\<newline>''"

fun combined_text_loop :: "string \<Rightarrow> results \<Rightarrow> py_exception + string" where
  "combined_text_loop combined_text [] = Inr combined_text"
| "combined_text_loop combined_text ((filename, result) # rest) =
     (case getitem result ''status'' of
        Inl e \<Rightarrow> Inl e
      | Inr status \<Rightarrow>
          (case getitem result ''data'' of
             Inl e \<Rightarrow> Inl e
           | Inr data \<Rightarrow>
               combined_text_loop
                 (combined_text @ ''FACTURA: '' @ filename @ ''\<newline>'' @
                  ''Estado: '' @ status @ ''\<newline>'' @
                  replicate 80 CHR ''-'' @ ''\<newline>'' @
                  data @ ''\<newline>'' @
                  replicate 80 CHR ''='' @ ''\<newline>\<newline>'')
                 rest))"

definition combined_text :: "string \<Rightarrow> results \<Rightarrow> py_exception + string" where
  "combined_text processed_at results = combined_text_loop (report_header processed_at) results"




fun success_count :: "outcome list \<Rightarrow> py_exception + nat" where
  \<comment> \<open>\<^verbatim>\<open>sum(1 for r in results.values() if r['status'] == 'success')\<close>\<close>
  "success_count [] = Inr 0"
| "success_count (r # rs) =
     (case getitem r ''status'' of
        Inl e \<Rightarrow> Inl e
      | Inr status \<Rightarrow>
          (case success_count rs of
             Inl e \<Rightarrow> Inl e
           | Inr n \<Rightarrow> Inr ((if status = ''success'' then 1 else 0) + n)))"

definition tab_label :: "string \<Rightarrow> string" where
  \<comment> \<open>the source counts characters; the model counts bytes, the same on an ASCII name\<close>
  "tab_label name =
     (if length name > 30
      then [CHR 0xF0, CHR 0x9F, CHR 0x93, CHR 0x84] @ '' '' @ take 30 name @ ''...''
      else [CHR 0xF0, CHR 0x9F, CHR 0x93, CHR 0x84] @ '' '' @ name)"

definition badge :: "string \<Rightarrow> event" where
  "badge status =
     (if status = ''success''
      then St_success ([CHR 0xE2, CHR 0x9C, CHR 0x85] @ '' '' @ [CHR 0xC3, CHR 0x89] @ ''xito'')
      else St_error ([CHR 0xE2, CHR 0x9D, CHR 0x8C] @ '' Error''))"

definition tab_body :: "string \<Rightarrow> outcome \<Rightarrow> event list \<times> py_exception option" where
  "tab_body filename result =
     (case getitem result ''status'' of
        Inl e \<Rightarrow> ([St_text filename], Some e)
      | Inr status \<Rightarrow>
          (case getitem result ''data'' of
             Inl e \<Rightarrow> ([St_text filename, badge status], Some e)
           | Inr data \<Rightarrow>
               (case getitem result ''timestamp'' of
                  Inl e \<Rightarrow> ([St_text filename, badge status, St_code data], Some e)
                | Inr timestamp \<Rightarrow>
                    ([St_text filename, badge status, St_code data,
                      St_caption (''Procesado: '' @ timestamp)],
                     None))))"

fun tabs_loop ::
  "(string \<times> string \<times> outcome) list \<Rightarrow> (string \<times> event list) list \<times> py_exception option" where
  \<comment> \<open>\<^verbatim>\<open>for tab, (filename, result) in zip(tabs, results.items())\<close>, a tab being its label\<close>
  "tabs_loop [] = ([], None)"
| "tabs_loop ((tab, filename, result) # rest) =
     (case tab_body filename result of
        (body, Some e) \<Rightarrow> ([(tab, body)], Some e)
      | (body, None) \<Rightarrow>
          (case tabs_loop rest of (shown, exc) \<Rightarrow> ((tab, body) # shown, exc)))"

definition st_tabs_no_label :: py_exception where
  \<comment> \<open>\<^verbatim>\<open>st.tabs\<close> refuses an empty list of labels\<close>
  "st_tabs_no_label = PyException ''StreamlitAPIException''
     ''The input argument to st.tabs must contain at least one tab label.''"

definition results_section ::
  "session \<Rightarrow> (event list \<times> (string \<times> event list) list) \<times> py_exception option" where
  \<comment> \<open>the section "Resultados": the three metrics, then one tab per item\<close>
  "results_section ss =
     (case ss_results ss of
        None \<Rightarrow> (([], []), None)
      | Some results \<Rightarrow>
          (case success_count (map snd results) of
             Inl e \<Rightarrow> (([], []), Some e)
           | Inr n \<Rightarrow>
               (let metrics = [St_metric ''Total procesadas'' (length results),
                               St_metric ''Exitosas'' n,
                               St_metric ''Errores'' (length results - n)]
                in if results = [] then ((metrics, []), Some st_tabs_no_label)
                   else
                     (case tabs_loop (zip (map tab_label (keys results)) results) of
                        (shown, exc) \<Rightarrow> ((metrics, shown), exc)))))"


section \<open>Notions used in the statements\<close>

text \<open>
  \<open>run_until w folder_path api_key k\<close> is the state of the loop of
  \<open>process_all_invoices\<close> when it has gone through its first \<open>k\<close> files, and
  \<open>recorded w api_key p\<close> the outcome that the \<^verbatim>\<open>try\<close> statement stores for the
  file \<open>p\<close> when it is reached in the world \<open>w\<close>. \<open>item_events\<close> is what one turn of
  the loop adds to the log.
\<close>

definition run_start :: "world \<Rightarrow> run_state" where
  "run_start w = emit St_empty (emit (St_progress 0) \<lparr>res = [], wld = w, log = []\<rparr>)"

definition run_until :: "world \<Rightarrow> string \<Rightarrow> string \<Rightarrow> nat \<Rightarrow> run_state" where
  "run_until w folder_path api_key k =
     (let pdf_files = glob_pdf w folder_path
      in foldl (loop_body api_key (length pdf_files)) (run_start w)
           (take k (enumerate 0 pdf_files)))"

definition recorded :: "world \<Rightarrow> string \<Rightarrow> string \<Rightarrow> outcome" where
  "recorded w api_key p =
     (case extract_iva_from_pdf w p api_key of
        (r, w1) \<Rightarrow>
          [(''status'', case r of Inl _ \<Rightarrow> ''error'' | Inr _ \<Rightarrow> ''success''),
           (''data'', case r of Inl e \<Rightarrow> ''Error: '' @ exc_str e | Inr t \<Rightarrow> t),
           (''timestamp'', strftime_iso (clock w1 (ticks w1)))])"

definition item_events :: "nat \<Rightarrow> nat \<times> string \<Rightarrow> event list" where
  "item_events n ip =
     [Status_text (status_line (snd ip) (fst ip) n), Store (path_name (snd ip)),
      Progress_value (fst ip + 1) n]"

text \<open>
  The worlds on which the statements are tried. In \<open>w_demo\<close> the folder holds two
  PDF files among other entries; the second cannot be read, and the service answers its
  first request only. In \<open>w_no_pdf\<close> the folder holds no PDF file; in
  \<open>w_failing\<close> it holds three, and the service refuses every request.
\<close>

definition demo_clock :: "nat \<Rightarrow> datetime" where
  "demo_clock n = \<lparr>year = 2024, month = 1, day = 2, hour = 3, minute = 4, second = n\<rparr>"

definition w_demo :: world where
  "w_demo =
     \<lparr>files = [(''facturas/a.pdf'', ''Man''), (''facturas/notes.txt'', ''x''),
               (''facturas/b.pdf'', ''hello''), (''other/c.pdf'', ''zz''),
               (''facturas/sub/d.pdf'', ''zz'')],
      open_error = (\<lambda>p m. if p = ''facturas/b.pdf'' \<and> m = Rb
                           then Some (PyException ''PermissionError'' ''denied'') else None),
      service = (\<lambda>n r. if n = 0 then Inr (Message [TextBlock ''IVA 19%''])
                        else Inl (PyException ''APIError'' ''timeout'')),
      sent = [], clock = demo_clock, ticks = 0\<rparr>"

definition w_no_pdf :: world where
  "w_no_pdf = w_demo\<lparr>files := [(''facturas/notes.txt'', ''x''), (''other/c.pdf'', ''zz'')]\<rparr>"


text \<open>
  \<open>has_fields r\<close> says that the record \<open>r\<close> has the three keys of an outcome, and
  \<open>field r k\<close> is the value under a key that is present. \<open>rs_demo\<close> is the mapping
  that the run on \<open>w_demo\<close> returns (\<open>button_w_demo\<close> below).
\<close>

definition has_fields :: "outcome \<Rightarrow> bool" where
  "has_fields r \<longleftrightarrow>
     ''status'' \<in> set (keys r) \<and> ''data'' \<in> set (keys r) \<and> ''timestamp'' \<in> set (keys r)"

definition field :: "outcome \<Rightarrow> string \<Rightarrow> string" where
  "field r k = (case getitem r k of Inr v \<Rightarrow> v | Inl _ \<Rightarrow> [])"

definition rs_demo :: results where
  "rs_demo =
     [(''a.pdf'', [(''status'', ''success''), (''data'', ''IVA 19%''),
                   (''timestamp'', ''2024-01-02 03:04:00'')]),
      (''b.pdf'', [(''status'', ''error''), (''data'', ''Error: denied''),
                   (''timestamp'', ''2024-01-02 03:04:01'')])]"


definition ss_demo :: session where
  "ss_demo = \<lparr>ss_results = Some rs_demo, ss_processed_at = Some ''2024-01-02 03:04:02''\<rparr>"


section \<open>Dictionaries\<close>

lemma setitem_new: "k \<notin> set (keys d) \<Longrightarrow> setitem d k v = d @ [(k, v)]"
  by (induction d) (auto simp: keys_def)

lemma keys_setitem: "keys (setitem d k v) = (if k \<in> set (keys d) then keys d else keys d @ [k])"
  by (induction d) (force simp: keys_def)+

lemma map_of_setitem: "map_of (setitem d k v) = (map_of d)(k \<mapsto> v)"
  by (induction d) (auto simp: fun_eq_iff)

lemma set_setitem: "set (setitem d k v) \<subseteq> insert (k, v) (set d)"
  by (induction d) (auto split: if_splits)

lemma setitem_not_Nil: "setitem d k v \<noteq> []"
  by (cases d) (auto split: if_splits)

lemma getitem_present: "k \<in> set (keys d) \<Longrightarrow> \<exists>v. getitem d k = Inr v"
  by (auto simp: getitem_def keys_def weak_map_of_SomeI split: option.splits)

section \<open>One turn of the loop\<close>

lemma res_attempt:
  "res (attempt api_key p s) = setitem (res s) (path_name p) (recorded (wld s) api_key p)"
  by (simp add: attempt_def recorded_def store_def datetime_now_def
      split: prod.splits sum.splits)

lemma log_attempt: "log (attempt api_key p s) = log s @ [Store (path_name p)]"
  by (simp add: attempt_def store_def datetime_now_def split: prod.splits sum.splits)

lemma service_extract: "service (snd (extract_iva_from_pdf w p api_key)) = service w"
  by (simp add: extract_iva_from_pdf_def messages_create_def
      split: sum.splits list.splits content_block.splits)

lemma service_attempt: "service (wld (attempt api_key p s)) = service (wld s)"
proof -
  obtain r w1 where x: "extract_iva_from_pdf (wld s) p api_key = (r, w1)"
    by (cases "extract_iva_from_pdf (wld s) p api_key")
  with service_extract [of "wld s" p api_key] have "service w1 = service (wld s)"
    by simp
  then show ?thesis
    by (simp add: attempt_def x store_def datetime_now_def split: sum.splits)
qed

lemma res_loop_body:
  "res (loop_body api_key n s (i, p)) =
   setitem (res s) (path_name p) (recorded (wld s) api_key p)"
  by (simp add: loop_body_def emit_def res_attempt)

lemma log_loop_body: "log (loop_body api_key n s ip) = log s @ item_events n ip"
  by (cases ip) (simp add: loop_body_def emit_def log_attempt item_events_def)

lemma service_loop_body: "service (wld (loop_body api_key n s ip)) = service (wld s)"
  by (cases ip) (simp add: loop_body_def emit_def service_attempt)

section \<open>The loop\<close>

lemma log_foldl:
  "log (foldl (loop_body api_key n) s items) = log s @ concat (map (item_events n) items)"
  by (induction items arbitrary: s) (simp_all add: log_loop_body)

lemma service_foldl: "service (wld (foldl (loop_body api_key n) s items)) = service (wld s)"
  by (induction items arbitrary: s) (simp_all add: service_loop_body)

lemma keys_foldl:
  "distinct (keys (res s) @ map (path_name \<circ> snd) items) \<Longrightarrow>
   keys (res (foldl (loop_body api_key n) s items)) =
   keys (res s) @ map (path_name \<circ> snd) items"
proof (induction items arbitrary: s)
  case Nil
  then show ?case by simp
next
  case (Cons ip items)
  obtain i p where ip: "ip = (i, p)" by (cases ip)
  from Cons.prems have new: "path_name p \<notin> set (keys (res s))"
    by (auto simp: ip)
  have k: "keys (res (loop_body api_key n s ip)) = keys (res s) @ [path_name p]"
    using new by (simp add: ip res_loop_body keys_setitem)
  from Cons.prems
  have "distinct (keys (res (loop_body api_key n s ip)) @ map (path_name \<circ> snd) items)"
    unfolding k by (auto simp: ip comp_def)
  from Cons.IH [OF this] show ?case unfolding k by (simp add: ip)
qed

lemma lookup_foldl_other:
  "name \<notin> set (map (path_name \<circ> snd) items) \<Longrightarrow>
   map_of (res (foldl (loop_body api_key n) s items)) name = map_of (res s) name"
proof (induction items arbitrary: s)
  case Nil
  then show ?case by simp
next
  case (Cons ip items)
  obtain i p where ip: "ip = (i, p)" by (cases ip)
  from Cons.prems have "name \<noteq> path_name p"
    and rest: "name \<notin> set (map (path_name \<circ> snd) items)"
    by (auto simp: ip)
  then have "map_of (res (loop_body api_key n s ip)) name = map_of (res s) name"
    by (simp add: ip res_loop_body map_of_setitem)
  with Cons.IH [OF rest] show ?case by simp
qed

lemma lookup_foldl_item:
  assumes d: "distinct (map (path_name \<circ> snd) items)" and k: "k < length items"
  shows "map_of (res (foldl (loop_body api_key n) s items)) (path_name (snd (items ! k))) =
         Some (recorded (wld (foldl (loop_body api_key n) s (take k items))) api_key
                 (snd (items ! k)))"
proof -
  let ?f = "loop_body api_key n"
  have split: "items = take k items @ items ! k # drop (Suc k) items"
    using k by (simp add: id_take_nth_drop)
  obtain i p where ip: "items ! k = (i, p)" by (cases "items ! k")
  have "distinct (map (path_name \<circ> snd) (take k items @ items ! k # drop (Suc k) items))"
    using d split by simp
  then have later: "path_name p \<notin> set (map (path_name \<circ> snd) (drop (Suc k) items))"
    by (auto simp: ip)
  have "foldl ?f s items =
        foldl ?f (?f (foldl ?f s (take k items)) (items ! k)) (drop (Suc k) items)"
    by (subst split) simp
  then have "map_of (res (foldl ?f s items)) (path_name p) =
             map_of (res (?f (foldl ?f s (take k items)) (i, p))) (path_name p)"
    using lookup_foldl_other [OF later] by (simp add: ip)
  then show ?thesis
    by (simp add: ip res_loop_body map_of_setitem)
qed

lemma records_foldl:
  assumes "\<forall>x \<in> set (res s). P (snd x)"
    and "\<And>w p. service w = service (wld s) \<Longrightarrow> P (recorded w api_key p)"
  shows "\<forall>x \<in> set (res (foldl (loop_body api_key n) s items)). P (snd x)"
  using assms
proof (induction items arbitrary: s)
  case Nil
  then show ?case by simp
next
  case (Cons ip items)
  obtain i p where ip: "ip = (i, p)" by (cases ip)
  let ?s' = "loop_body api_key n s ip"
  have sv: "service (wld ?s') = service (wld s)"
    by (rule service_loop_body)
  have "P (recorded (wld s) api_key p)"
    by (rule Cons.prems(2)) simp
  then have "\<forall>x \<in> set (res ?s'). P (snd x)"
    using Cons.prems(1) set_setitem [of "res s" "path_name p" "recorded (wld s) api_key p"]
    by (auto simp: ip res_loop_body)
  moreover have "\<And>w p. service w = service (wld ?s') \<Longrightarrow> P (recorded w api_key p)"
    using Cons.prems(2) sv by simp
  ultimately have "\<forall>x \<in> set (res (foldl (loop_body api_key n) ?s' items)). P (snd x)"
    by (rule Cons.IH)
  then show ?case by simp
qed

lemma res_foldl_not_Nil:
  "items \<noteq> [] \<Longrightarrow> res (foldl (loop_body api_key n) s items) \<noteq> []"
proof (cases items rule: rev_cases)
  case Nil
  assume "items \<noteq> []"
  with Nil show ?thesis by simp
next
  case (snoc xs x)
  obtain i p where "x = (i, p)" by (cases x)
  with snoc show ?thesis
    by (simp add: res_loop_body setitem_not_Nil)
qed

section \<open>Enumerating the folder\<close>

lemma child_of_decompose:
  assumes "child_of folder p"
  shows "p = folder @ ''/'' @ path_name p"
proof -
  let ?rest = "drop (Suc (length folder)) p"
  from assms have t: "take (Suc (length folder)) p = folder @ ''/''"
    and n: "CHR ''/'' \<notin> set ?rest"
    by (simp_all add: child_of_def)
  have p: "p = (folder @ ''/'') @ ?rest"
    using t append_take_drop_id [of "Suc (length folder)" p] by simp
  have "rev p = rev ?rest @ CHR ''/'' # rev folder"
    by (subst p) simp
  then have "takeWhile (\<lambda>c. c \<noteq> CHR ''/'') (rev p) = rev ?rest"
    using n by (auto simp: takeWhile_tail)
  then have "path_name p = ?rest" by (simp add: path_name_def)
  with p show ?thesis by simp
qed

lemma path_name_inj_on_children: "inj_on path_name {p. child_of folder p}"
proof (rule inj_onI)
  fix p q
  assume "p \<in> {p. child_of folder p}" "q \<in> {p. child_of folder p}"
    "path_name p = path_name q"
  then show "p = q"
    using child_of_decompose [of folder p] child_of_decompose [of folder q] by simp
qed

lemma distinct_glob_names:
  assumes "distinct (keys (files w))"
  shows "distinct (map path_name (glob_pdf w folder))"
proof -
  have "distinct (glob_pdf w folder)"
    using assms by (simp add: glob_pdf_def)
  moreover have "inj_on path_name (set (glob_pdf w folder))"
    by (rule inj_on_subset [OF path_name_inj_on_children [of folder]])
      (auto simp: glob_pdf_def)
  ultimately show ?thesis by (simp add: distinct_map)
qed

section \<open>The run as a whole\<close>

lemma run_until_all:
  "run_until w folder_path api_key (length (glob_pdf w folder_path)) =
   foldl (loop_body api_key (length (glob_pdf w folder_path))) (run_start w)
     (enumerate 0 (glob_pdf w folder_path))"
  by (simp add: run_until_def Let_def)

lemma process_all_invoices_empty:
  "glob_pdf w folder_path = [] \<Longrightarrow> process_all_invoices w folder_path api_key = (None, w, [])"
  by (simp add: process_all_invoices_def)

lemma process_all_invoices_run:
  assumes "glob_pdf w folder_path \<noteq> []"
  shows "process_all_invoices w folder_path api_key =
         (let s = run_until w folder_path api_key (length (glob_pdf w folder_path))
          in (Some (res s), wld s, log s @ [Status_empty, Progress_empty]))"
  using assms
  by (simp add: process_all_invoices_def run_until_all run_start_def Let_def emit_def)

lemma keys_run:
  assumes "distinct (keys (files w))"
  shows "keys (res (run_until w folder_path api_key (length (glob_pdf w folder_path)))) =
         map path_name (glob_pdf w folder_path)"
proof -
  have "distinct (keys (res (run_start w)) @
          map (path_name \<circ> snd) (enumerate 0 (glob_pdf w folder_path)))"
    using distinct_glob_names [OF assms, of folder_path]
    by (simp add: run_start_def emit_def keys_def map_map [symmetric] del: map_map)
  from keys_foldl [OF this] show ?thesis
    by (simp add: run_until_all run_start_def emit_def keys_def map_map [symmetric]
        del: map_map)
qed

lemma frozen_extract:
  "files (snd (extract_iva_from_pdf w p api_key)) = files w \<and>
   open_error (snd (extract_iva_from_pdf w p api_key)) = open_error w \<and>
   clock (snd (extract_iva_from_pdf w p api_key)) = clock w"
  by (simp add: extract_iva_from_pdf_def messages_create_def
      split: sum.splits list.splits content_block.splits)

lemma frozen_attempt:
  "files (wld (attempt api_key p s)) = files (wld s) \<and>
   open_error (wld (attempt api_key p s)) = open_error (wld s) \<and>
   clock (wld (attempt api_key p s)) = clock (wld s)"
proof -
  obtain r w1 where x: "extract_iva_from_pdf (wld s) p api_key = (r, w1)"
    by (cases "extract_iva_from_pdf (wld s) p api_key")
  with frozen_extract [of "wld s" p api_key]
  have "files w1 = files (wld s) \<and> open_error w1 = open_error (wld s) \<and> clock w1 = clock (wld s)"
    by simp
  then show ?thesis
    by (simp add: attempt_def x store_def datetime_now_def split: sum.splits)
qed

lemma frozen_loop_body:
  "files (wld (loop_body api_key n s ip)) = files (wld s) \<and>
   open_error (wld (loop_body api_key n s ip)) = open_error (wld s) \<and>
   clock (wld (loop_body api_key n s ip)) = clock (wld s)"
  by (cases ip) (simp add: loop_body_def emit_def frozen_attempt)

lemma frozen_foldl:
  "files (wld (foldl (loop_body api_key n) s items)) = files (wld s) \<and>
   open_error (wld (foldl (loop_body api_key n) s items)) = open_error (wld s) \<and>
   clock (wld (foldl (loop_body api_key n) s items)) = clock (wld s)"
  by (induction items arbitrary: s) (simp_all add: frozen_loop_body)

lemma frozen_run_until:
  "files (wld (run_until w folder_path api_key k)) = files w \<and>
   open_error (wld (run_until w folder_path api_key k)) = open_error w \<and>
   clock (wld (run_until w folder_path api_key k)) = clock w"
  by (simp add: run_until_def Let_def frozen_foldl run_start_def emit_def)

lemma service_run_until: "service (wld (run_until w folder_path api_key k)) = service w"
  by (simp add: run_until_def Let_def service_foldl run_start_def emit_def)

lemma recorded_Inl:
  "fst (extract_iva_from_pdf w p api_key) = Inl e \<Longrightarrow>
   getitem (recorded w api_key p) ''status'' = Inr ''error'' \<and>
   getitem (recorded w api_key p) ''data'' = Inr (''Error: '' @ exc_str e)"
  by (cases "extract_iva_from_pdf w p api_key") (simp add: recorded_def getitem_def)

lemma recorded_Inr:
  "fst (extract_iva_from_pdf w p api_key) = Inr t \<Longrightarrow>
   getitem (recorded w api_key p) ''status'' = Inr ''success'' \<and>
   getitem (recorded w api_key p) ''data'' = Inr t"
  by (cases "extract_iva_from_pdf w p api_key") (simp add: recorded_def getitem_def)

lemma recorded_shape:
  "(\<exists>d t. recorded w api_key p = [(''status'', ''success''), (''data'', d), (''timestamp'', t)]) \<or>
   (\<exists>e t. recorded w api_key p =
      [(''status'', ''error''), (''data'', ''Error: '' @ exc_str e), (''timestamp'', t)])"
  by (cases "extract_iva_from_pdf w p api_key") (auto simp: recorded_def split: sum.splits)

lemma lookup_run:
  assumes "distinct (keys (files w))" and "k < length (glob_pdf w folder_path)"
  shows "getitem (res (run_until w folder_path api_key (length (glob_pdf w folder_path))))
           (path_name (glob_pdf w folder_path ! k)) =
         Inr (recorded (wld (run_until w folder_path api_key k)) api_key
                (glob_pdf w folder_path ! k))"
proof -
  let ?fs = "glob_pdf w folder_path"
  let ?items = "enumerate 0 ?fs"
  have d: "distinct (map (path_name \<circ> snd) ?items)"
    using distinct_glob_names [OF assms(1), of folder_path]
    by (simp add: map_map [symmetric] del: map_map)
  have k: "k < length ?items" using assms(2) by simp
  have nth: "snd (?items ! k) = ?fs ! k"
    using assms(2) by (simp add: nth_enumerate_eq)
  from lookup_foldl_item [OF d k, of api_key "length ?fs" "run_start w"]
  show ?thesis
    by (simp add: nth run_until_def Let_def getitem_def)
qed

lemma stores_concat:
  "[name. Store name \<leftarrow> concat (map (item_events n) items)] = map (path_name \<circ> snd) items"
  by (induction items) (simp_all add: item_events_def)

lemma stores_run:
  assumes "glob_pdf w folder_path \<noteq> []"
  shows "[name. Store name \<leftarrow> snd (snd (process_all_invoices w folder_path api_key))] =
         map path_name (glob_pdf w folder_path)"
  using assms
  by (simp add: process_all_invoices_run Let_def run_until_all log_foldl run_start_def
      emit_def stores_concat map_map [symmetric] del: map_map)

lemma read_refused:
  "open_error w p Rb = Some e \<Longrightarrow> fst (extract_iva_from_pdf w p api_key) = Inl e"
  by (simp add: extract_iva_from_pdf_def pdf_to_base64_def read_bytes_def)




lemma records_run:
  assumes "\<And>w' p. service w' = service w \<Longrightarrow> P (recorded w' api_key p)"
  shows "\<forall>x \<in> set (res (run_until w folder_path api_key k)). P (snd x)"
  unfolding run_until_def Let_def
  by (rule records_foldl) (simp_all add: run_start_def emit_def assms)


lemma enumerate_upt: "enumerate 0 xs = map (\<lambda>i. (i, xs ! i)) [0..<length xs]"
proof -
  have "enumerate 0 (map (\<lambda>i. xs ! i) [0..<length xs]) = map (\<lambda>i. (i, xs ! i)) [0..<length xs]"
    by (rule enumerate_map_upt)
  then show ?thesis by (simp add: map_nth)
qed

lemma status_concat:
  "[s. Status_text s \<leftarrow> concat (map (item_events n) items)] =
   map (\<lambda>ip. status_line (snd ip) (fst ip) n) items"
  by (induction items) (simp_all add: item_events_def)

lemma nth_concat_item_events:
  "k < length items \<Longrightarrow> j < 3 \<Longrightarrow>
   concat (map (item_events n) items) ! (3 * k + j) = item_events n (items ! k) ! j"
proof (induction items arbitrary: k)
  case Nil
  then show ?case by simp
next
  case (Cons ip items)
  have len: "length (item_events n ip) = 3" by (simp add: item_events_def)
  show ?case
  proof (cases k)
    case 0
    with Cons.prems len show ?thesis by (simp add: nth_append)
  next
    case (Suc k')
    with Cons.prems have "k' < length items" by simp
    from Cons.IH [OF this Cons.prems(2)] Suc len show ?thesis
      by (simp add: nth_append)
  qed
qed

lemma log_run:
  assumes "glob_pdf w folder_path \<noteq> []"
  shows "snd (snd (process_all_invoices w folder_path api_key)) =
         [St_progress 0, St_empty] @
         concat (map (item_events (length (glob_pdf w folder_path)))
                   (enumerate 0 (glob_pdf w folder_path))) @
         [Status_empty, Progress_empty]"
  using assms
  by (simp add: process_all_invoices_run Let_def run_until_all log_foldl run_start_def emit_def)

section \<open>The report and the table\<close>

lemma getitem_field: "k \<in> set (keys r) \<Longrightarrow> getitem r k = Inr (field r k)"
  using getitem_present [of k r] by (auto simp: field_def)

lemma combined_text_loop_closed:
  "\<forall>x \<in> set rs. has_fields (snd x) \<Longrightarrow>
   combined_text_loop acc rs =
   Inr (acc @ concat (map (\<lambda>(name, r). section_text name (field r ''status'') (field r ''data'')) rs))"
proof (induction rs arbitrary: acc)
  case Nil
  then show ?case by simp
next
  case (Cons x rs)
  obtain name r where x: "x = (name, r)" by (cases x)
  from Cons.prems have "has_fields r" and rest: "\<forall>x \<in> set rs. has_fields (snd x)"
    by (simp_all add: x)
  then have g: "getitem r ''status'' = Inr (field r ''status'')"
    "getitem r ''data'' = Inr (field r ''data'')"
    by (simp_all add: has_fields_def getitem_field)
  show ?case
    by (simp add: x g Cons.IH [OF rest] section_text_def)
qed

lemma summary_loop_closed:
  "\<forall>x \<in> set rs. has_fields (snd x) \<Longrightarrow>
   summary_loop acc rs =
   Inr (acc @ map (\<lambda>(name, r).
                     [(''Factura'', name), (''Estado'', field r ''status''),
                      (''Fecha Procesamiento'', field r ''timestamp''),
                      (''Resultado'', field r ''data'')]) rs)"
proof (induction rs arbitrary: acc)
  case Nil
  then show ?case by simp
next
  case (Cons x rs)
  obtain name r where x: "x = (name, r)" by (cases x)
  from Cons.prems have "has_fields r" and rest: "\<forall>x \<in> set rs. has_fields (snd x)"
    by (simp_all add: x)
  then have g: "getitem r ''status'' = Inr (field r ''status'')"
    "getitem r ''data'' = Inr (field r ''data'')"
    "getitem r ''timestamp'' = Inr (field r ''timestamp'')"
    by (simp_all add: has_fields_def getitem_field)
  show ?case
    by (simp add: x g Cons.IH [OF rest] create_summary_row_def)
qed

lemma recorded_has_fields: "has_fields (recorded w api_key p)"
  by (cases "extract_iva_from_pdf w p api_key") (simp add: recorded_def has_fields_def keys_def)

lemma run_has_fields:
  assumes "process_all_invoices w folder_path api_key = (Some rs, w', evs)"
  shows "\<forall>x \<in> set rs. has_fields (snd x)"
proof -
  from assms have ne: "glob_pdf w folder_path \<noteq> []"
    by (auto simp: process_all_invoices_empty)
  with assms have rs: "rs = res (run_until w folder_path api_key (length (glob_pdf w folder_path)))"
    by (simp add: process_all_invoices_run Let_def)
  show ?thesis
    unfolding rs by (rule records_run) (rule recorded_has_fields)
qed

lemma has_fields_rs_demo: "\<forall>x \<in> set rs_demo. has_fields (snd x)"
  by (simp add: rs_demo_def has_fields_def keys_def)

lemma tabs_loop_closed:
  "\<forall>x \<in> set rs. has_fields (snd x) \<Longrightarrow> length labels = length rs \<Longrightarrow>
   tabs_loop (zip labels rs) =
   (map (\<lambda>(tab, name, r).
           (tab, [St_text name, badge (field r ''status''), St_code (field r ''data''),
                  St_caption (''Procesado: '' @ field r ''timestamp'')]))
      (zip labels rs),
    None)"
proof (induction rs arbitrary: labels)
  case Nil
  then show ?case by simp
next
  case (Cons x rs)
  obtain name r where x: "x = (name, r)" by (cases x)
  from Cons.prems(2) obtain l ls where labels: "labels = l # ls" and len: "length ls = length rs"
    by (cases labels) simp_all
  from Cons.prems(1) have "has_fields r" and rest: "\<forall>x \<in> set rs. has_fields (snd x)"
    by (simp_all add: x)
  then have g: "getitem r ''status'' = Inr (field r ''status'')"
    "getitem r ''data'' = Inr (field r ''data'')"
    "getitem r ''timestamp'' = Inr (field r ''timestamp'')"
    by (simp_all add: has_fields_def getitem_field)
  show ?case
    by (simp add: x labels g Cons.IH [OF rest len] tab_body_def)
qed

lemma success_count_total:
  "\<forall>r \<in> set rs. has_fields r \<Longrightarrow> \<exists>n. success_count rs = Inr n"
proof (induction rs)
  case Nil
  then show ?case by simp
next
  case (Cons r rs)
  then have "has_fields r" and "\<exists>n. success_count rs = Inr n" by simp_all
  then show ?case
    by (auto simp: has_fields_def getitem_field)
qed



section \<open>The uploaded file\<close>




section \<open>The demonstration worlds\<close>

lemma glob_w_demo: "glob_pdf w_demo ''facturas'' = [''facturas/a.pdf'', ''facturas/b.pdf'']"
  by (simp add: glob_pdf_def w_demo_def keys_def child_of_def matches_pdf_def path_name_def)

lemma glob_w_no_pdf: "glob_pdf w_no_pdf ''facturas'' = []"
  by (simp add: glob_pdf_def w_no_pdf_def w_demo_def keys_def child_of_def matches_pdf_def
      path_name_def)

lemma distinct_w_demo: "distinct (keys (files w_demo))"
  by (simp add: w_demo_def keys_def)

lemma button_w_demo:
  "fst (snd (process_button w_demo \<lparr>ss_results = None, ss_processed_at = None\<rparr>
               (glob_pdf w_demo PDF_FOLDER) ''sk-key'')) = ss_demo"
  by code_simp

section \<open>The claims\<close>

text \<open>
  C1. On a folder with PDF files (the file system keeping one file per path) the run
  returns a mapping whose keys are the names of the enumerated files, each stored exactly
  once. The outcome under the name of the \<open>k\<close>-th file is the one of its own
  extraction, made in the world that the files before it have left: when that extraction
  raises \<open>e\<close>, the outcome has status \<^verbatim>\<open>error\<close> and the data \<^verbatim>\<open>Error: \<close>
  followed by \<open>str e\<close>, and the run goes on with the next file; otherwise it has
  status \<^verbatim>\<open>success\<close> and the answer as data.
\<close>

theorem every_file_gets_its_outcome:
  assumes "distinct (keys (files w))" and "glob_pdf w folder_path \<noteq> []"
  shows "\<exists>rs w' evs.
           process_all_invoices w folder_path api_key = (Some rs, w', evs) \<and>
           keys rs = map path_name (glob_pdf w folder_path) \<and>
           [name. Store name \<leftarrow> evs] = map path_name (glob_pdf w folder_path) \<and>
           (\<forall>k < length (glob_pdf w folder_path).
              \<exists>r. getitem rs (path_name (glob_pdf w folder_path ! k)) = Inr r \<and>
                (case fst (extract_iva_from_pdf (wld (run_until w folder_path api_key k))
                             (glob_pdf w folder_path ! k) api_key) of
                   Inl e \<Rightarrow> getitem r ''status'' = Inr ''error'' \<and>
                            getitem r ''data'' = Inr (''Error: '' @ exc_str e)
                 | Inr t \<Rightarrow> getitem r ''status'' = Inr ''success'' \<and>
                            getitem r ''data'' = Inr t))"
proof -
  let ?fs = "glob_pdf w folder_path"
  let ?s = "run_until w folder_path api_key (length ?fs)"
  have run: "process_all_invoices w folder_path api_key =
             (Some (res ?s), wld ?s, log ?s @ [Status_empty, Progress_empty])"
    using assms(2) by (simp add: process_all_invoices_run Let_def)
  have k: "keys (res ?s) = map path_name ?fs"
    by (rule keys_run [OF assms(1)])
  have st: "[name. Store name \<leftarrow> log ?s @ [Status_empty, Progress_empty]] = map path_name ?fs"
    using stores_run [OF assms(2), of api_key] by (simp add: run)
  have each: "\<exists>r. getitem (res ?s) (path_name (?fs ! k)) = Inr r \<and>
                (case fst (extract_iva_from_pdf (wld (run_until w folder_path api_key k))
                             (?fs ! k) api_key) of
                   Inl e \<Rightarrow> getitem r ''status'' = Inr ''error'' \<and>
                            getitem r ''data'' = Inr (''Error: '' @ exc_str e)
                 | Inr t \<Rightarrow> getitem r ''status'' = Inr ''success'' \<and>
                            getitem r ''data'' = Inr t)"
    if "k < length ?fs" for k
  proof -
    let ?wk = "wld (run_until w folder_path api_key k)"
    have "getitem (res ?s) (path_name (?fs ! k)) = Inr (recorded ?wk api_key (?fs ! k))"
      by (rule lookup_run [OF assms(1) that])
    moreover have "case fst (extract_iva_from_pdf ?wk (?fs ! k) api_key) of
                   Inl e \<Rightarrow> getitem (recorded ?wk api_key (?fs ! k)) ''status'' = Inr ''error'' \<and>
                            getitem (recorded ?wk api_key (?fs ! k)) ''data'' = Inr (''Error: '' @ exc_str e)
                 | Inr t \<Rightarrow> getitem (recorded ?wk api_key (?fs ! k)) ''status'' = Inr ''success'' \<and>
                            getitem (recorded ?wk api_key (?fs ! k)) ''data'' = Inr t"
      using recorded_Inl [of ?wk "?fs ! k" api_key] recorded_Inr [of ?wk "?fs ! k" api_key]
      by (simp split: sum.splits)
    ultimately show ?thesis by blast
  qed
  show ?thesis
    using run k st each by blast
qed

theorem every_file_gets_its_outcome_witness:
  "distinct (keys (files w_demo)) \<and> glob_pdf w_demo ''facturas'' \<noteq> [] \<and>
   (\<exists>rs w' evs r.
      process_all_invoices w_demo ''facturas'' ''sk-key'' = (Some rs, w', evs) \<and>
      keys rs = [''a.pdf'', ''b.pdf''] \<and>
      getitem rs ''b.pdf'' = Inr r \<and> getitem r ''status'' = Inr ''error'' \<and>
      getitem r ''data'' = Inr ''Error: denied'')"
proof -
  have g: "glob_pdf w_demo ''facturas'' \<noteq> []" by (simp add: glob_w_demo)
  have "open_error (wld (run_until w_demo ''facturas'' ''sk-key'' 1)) ''facturas/b.pdf'' Rb =
        Some (PyException ''PermissionError'' ''denied'')"
    by (simp add: frozen_run_until) (simp add: w_demo_def)
  then have x: "fst (extract_iva_from_pdf (wld (run_until w_demo ''facturas'' ''sk-key'' 1))
                  ''facturas/b.pdf'' ''sk-key'') = Inl (PyException ''PermissionError'' ''denied'')"
    by (rule read_refused)
  from every_file_gets_its_outcome [OF distinct_w_demo g, of "''sk-key''"]
  obtain rs w' evs where run: "process_all_invoices w_demo ''facturas'' ''sk-key'' = (Some rs, w', evs)"
    and k: "keys rs = map path_name (glob_pdf w_demo ''facturas'')"
    and each: "\<forall>k < length (glob_pdf w_demo ''facturas'').
              \<exists>r. getitem rs (path_name (glob_pdf w_demo ''facturas'' ! k)) = Inr r \<and>
                (case fst (extract_iva_from_pdf (wld (run_until w_demo ''facturas'' ''sk-key'' k))
                             (glob_pdf w_demo ''facturas'' ! k) ''sk-key'') of
                   Inl e \<Rightarrow> getitem r ''status'' = Inr ''error'' \<and>
                            getitem r ''data'' = Inr (''Error: '' @ exc_str e)
                 | Inr t \<Rightarrow> getitem r ''status'' = Inr ''success'' \<and>
                            getitem r ''data'' = Inr t)"
    by blast
  from each [rule_format, of 1] x
  obtain r where "getitem rs ''b.pdf'' = Inr r" "getitem r ''status'' = Inr ''error''"
    "getitem r ''data'' = Inr ''Error: denied''"
    by (auto simp: glob_w_demo path_name_def)
  with run k distinct_w_demo g show ?thesis
    by (auto simp: glob_w_demo path_name_def)
qed

text \<open>
  C2. When the folder holds \<open>N > 0\<close> PDF files (the file system keeping one file per
  path), \<open>process_all_invoices\<close> returns a mapping with exactly \<open>N\<close> entries, and its
  keys are the names of the enumerated files, \<open>N\<close> distinct names.
\<close>

theorem n_files_give_n_entries:
  assumes "distinct (keys (files w))" and "glob_pdf w folder_path \<noteq> []"
  shows "\<exists>rs w' evs.
           process_all_invoices w folder_path api_key = (Some rs, w', evs) \<and>
           length rs = length (glob_pdf w folder_path) \<and>
           keys rs = map path_name (glob_pdf w folder_path) \<and>
           distinct (keys rs) \<and>
           card (set (keys rs)) = length (glob_pdf w folder_path)"
proof -
  let ?s = "run_until w folder_path api_key (length (glob_pdf w folder_path))"
  have k: "keys (res ?s) = map path_name (glob_pdf w folder_path)"
    by (rule keys_run [OF assms(1)])
  have d: "distinct (keys (res ?s))"
    unfolding k by (rule distinct_glob_names [OF assms(1)])
  have "length (keys (res ?s)) = length (glob_pdf w folder_path)"
    unfolding k by simp
  then have l: "length (res ?s) = length (glob_pdf w folder_path)"
    by (simp add: keys_def)
  have c: "card (set (keys (res ?s))) = length (glob_pdf w folder_path)"
    using distinct_card [OF d] k by simp
  show ?thesis
    using assms(2) k d l c by (simp add: process_all_invoices_run Let_def)
qed

theorem n_files_give_n_entries_witness:
  "distinct (keys (files w_demo)) \<and> glob_pdf w_demo ''facturas'' \<noteq> [] \<and>
   (\<exists>rs w' evs.
      process_all_invoices w_demo ''facturas'' ''sk-key'' = (Some rs, w', evs) \<and>
      length rs = 2 \<and> keys rs = [''a.pdf'', ''b.pdf''])"
proof -
  have g: "glob_pdf w_demo ''facturas'' \<noteq> []" by (simp add: glob_w_demo)
  from n_files_give_n_entries [OF distinct_w_demo g, of "''sk-key''"]
  show ?thesis
    using distinct_w_demo by (auto simp: glob_w_demo path_name_def)
qed



text \<open>
  C4. The notification of the loop is the status line, which carries the name of the
  file, its index counted from 1 and the number of files. Over \<open>N\<close> files the run
  emits exactly \<open>N\<close> status lines, the \<open>i\<close>-th (from 0) with index \<open>i + 1\<close>, in this
  order. In the log of the run the status line of a file stands immediately before the
  store of its outcome into the mapping, and the update of the progress bar to
  \<open>(i + 1) / N\<close> immediately after that store.
\<close>

theorem progress_notifications_in_order:
  "let fs = glob_pdf w folder_path; n = length fs;
       evs = snd (snd (process_all_invoices w folder_path api_key))
   in [s. Status_text s \<leftarrow> evs] = map (\<lambda>i. status_line (fs ! i) i n) [0..<n] \<and>
      length evs = (if n = 0 then 0 else 3 * n + 4) \<and>
      (\<forall>i<n. evs ! (3 * i + 2) = Status_text (status_line (fs ! i) i n) \<and>
              evs ! (3 * i + 3) = Store (path_name (fs ! i)) \<and>
              evs ! (3 * i + 4) = Progress_value (i + 1) n)"
proof (cases "glob_pdf w folder_path = []")
  case True
  then show ?thesis by (simp add: process_all_invoices_empty)
next
  case False
  let ?fs = "glob_pdf w folder_path"
  let ?n = "length ?fs"
  let ?items = "enumerate 0 ?fs"
  let ?mid = "concat (map (item_events ?n) ?items)"
  let ?evs = "snd (snd (process_all_invoices w folder_path api_key))"
  have evs: "?evs = [St_progress 0, St_empty] @ ?mid @ [Status_empty, Progress_empty]"
    by (rule log_run [OF False])
  have "[s. Status_text s \<leftarrow> ?evs] = map (\<lambda>ip. status_line (snd ip) (fst ip) ?n) ?items"
    unfolding evs using status_concat [of ?n ?items] by simp
  then have a: "[s. Status_text s \<leftarrow> ?evs] = map (\<lambda>i. status_line (?fs ! i) i ?n) [0..<?n]"
    by (simp add: enumerate_upt [of ?fs] comp_def)
  have lm: "length ?mid = 3 * ?n"
    by (simp add: length_concat comp_def item_events_def sum_list_triv)
  have b: "length ?evs = (if ?n = 0 then 0 else 3 * ?n + 4)"
    using False by (simp add: evs lm)
  have c: "?evs ! (3 * i + 2) = Status_text (status_line (?fs ! i) i ?n) \<and>
           ?evs ! (3 * i + 3) = Store (path_name (?fs ! i)) \<and>
           ?evs ! (3 * i + 4) = Progress_value (i + 1) ?n" if "i < ?n" for i
  proof -
    have i: "i < length ?items" using that by simp
    have it: "?items ! i = (i, ?fs ! i)" using that by (simp add: nth_enumerate_eq)
    have m: "?mid ! (3 * i + j) = item_events ?n (i, ?fs ! i) ! j" if "j < 3" for j
      using nth_concat_item_events [OF i that, of ?n] by (simp add: it)
    have e: "?evs ! (3 * i + j + 2) = ?mid ! (3 * i + j)" if "j < 3" for j
    proof -
      have "3 * i + j < length ?mid" using \<open>i < ?n\<close> that lm by simp
      then show ?thesis by (simp add: evs nth_append)
    qed
    have "?evs ! (3 * i + 2) = ?evs ! (3 * i + 0 + 2)"
      by simp
    also have "\<dots> = ?mid ! (3 * i + 0)" by (rule e) simp
    also have "\<dots> = item_events ?n (i, ?fs ! i) ! 0" by (rule m) simp
    finally have p1: "?evs ! (3 * i + 2) = Status_text (status_line (?fs ! i) i ?n)"
      by (simp add: item_events_def)
    have "?evs ! (3 * i + 3) = ?evs ! (3 * i + 1 + 2)"
      by (rule arg_cong [where f = "\<lambda>k. ?evs ! k"]) simp
    also have "\<dots> = ?mid ! (3 * i + 1)" by (rule e) simp
    also have "\<dots> = item_events ?n (i, ?fs ! i) ! 1" by (rule m) simp
    finally have p2: "?evs ! (3 * i + 3) = Store (path_name (?fs ! i))"
      by (simp add: item_events_def)
    have "?evs ! (3 * i + 4) = ?evs ! (3 * i + 2 + 2)"
      by (rule arg_cong [where f = "\<lambda>k. ?evs ! k"]) simp
    also have "\<dots> = ?mid ! (3 * i + 2)" by (rule e) simp
    also have "\<dots> = item_events ?n (i, ?fs ! i) ! 2" by (rule m) simp
    finally have p3: "?evs ! (3 * i + 4) = Progress_value (i + 1) ?n"
      by (simp add: item_events_def)
    from p1 p2 p3 show ?thesis by blast
  qed
  show ?thesis
    unfolding Let_def using a b c by blast
qed

theorem progress_notifications_in_order_witness:
  "[s. Status_text s \<leftarrow> snd (snd (process_all_invoices w_demo ''facturas'' ''sk-key''))] =
     [''Procesando: a.pdf (1/2)'', ''Procesando: b.pdf (2/2)''] \<and>
   snd (snd (process_all_invoices w_demo ''facturas'' ''sk-key'')) ! 5 =
     Status_text ''Procesando: b.pdf (2/2)'' \<and>
   snd (snd (process_all_invoices w_demo ''facturas'' ''sk-key'')) ! 6 = Store ''b.pdf''"
proof -
  let ?evs = "snd (snd (process_all_invoices w_demo ''facturas'' ''sk-key''))"
  note t = progress_notifications_in_order
    [of w_demo "''facturas''" "''sk-key''", unfolded Let_def glob_w_demo]
  from t have a: "[s. Status_text s \<leftarrow> ?evs] =
           map (\<lambda>i. status_line ([''facturas/a.pdf'', ''facturas/b.pdf''] ! i) i
                  (length [''facturas/a.pdf'', ''facturas/b.pdf'']))
             [0..<length [''facturas/a.pdf'', ''facturas/b.pdf'']]"
    by blast
  from t have c: "\<forall>i<length [''facturas/a.pdf'', ''facturas/b.pdf''].
        ?evs ! (3 * i + 2) =
          Status_text (status_line ([''facturas/a.pdf'', ''facturas/b.pdf''] ! i) i
                         (length [''facturas/a.pdf'', ''facturas/b.pdf''])) \<and>
        ?evs ! (3 * i + 3) = Store (path_name ([''facturas/a.pdf'', ''facturas/b.pdf''] ! i)) \<and>
        ?evs ! (3 * i + 4) = Progress_value (i + 1) (length [''facturas/a.pdf'', ''facturas/b.pdf''])"
    by blast
  from a have "[s. Status_text s \<leftarrow> ?evs] =
     [''Procesando: a.pdf (1/2)'', ''Procesando: b.pdf (2/2)'']"
    by (simp add: upt_rec status_line_def path_name_def str_nat.simps digit_char_def)
  moreover from c [rule_format, of 1] have "?evs ! 5 = Status_text ''Procesando: b.pdf (2/2)''"
    and "?evs ! 6 = Store ''b.pdf''"
    by (simp_all add: status_line_def path_name_def str_nat.simps digit_char_def)
  ultimately show ?thesis by blast
qed

text \<open>
  C5. On a folder without PDF files \<open>process_all_invoices\<close> returns \<^verbatim>\<open>None\<close>,
  having touched neither the world nor the screen; and whatever the folder holds, it
  never returns an empty mapping. So "nothing to process" is a signal of its own, not a
  completed run of size 0.
\<close>

theorem empty_folder_gives_None:
  "(glob_pdf w folder_path = [] \<longrightarrow>
      process_all_invoices w folder_path api_key = (None, w, [])) \<and>
   fst (process_all_invoices w folder_path api_key) \<noteq> Some []"
proof (cases "glob_pdf w folder_path = []")
  case True
  then show ?thesis by (simp add: process_all_invoices_empty)
next
  case False
  then have "enumerate 0 (glob_pdf w folder_path) \<noteq> []"
    by (cases "glob_pdf w folder_path") simp_all
  then have "res (run_until w folder_path api_key (length (glob_pdf w folder_path))) \<noteq> []"
    unfolding run_until_all by (rule res_foldl_not_Nil)
  with False show ?thesis
    by (simp add: process_all_invoices_run Let_def)
qed

theorem empty_folder_gives_None_witness:
  "glob_pdf w_no_pdf ''facturas'' = [] \<and>
   process_all_invoices w_no_pdf ''facturas'' ''sk-key'' = (None, w_no_pdf, [])"
  using empty_folder_gives_None [of w_no_pdf "''facturas''" "''sk-key''"] glob_w_no_pdf
  by simp

text \<open>
  C6. The keys of the mapping that the run returns are the names of the files in the
  order of their enumeration (the file system keeping one file per path). The report has
  its sections, the table its rows and the results section its tabs in the order of the
  mapping.
\<close>

theorem outcomes_keep_enumeration_order:
  assumes "distinct (keys (files w))"
    and "process_all_invoices w folder_path api_key = (Some rs, w', evs)"
  shows "keys rs = map path_name (glob_pdf w folder_path) \<and>
         combined_text processed_at rs =
           Inr (report_header processed_at @
                concat (map (\<lambda>(name, r).
                               section_text name (field r ''status'') (field r ''data''))
                          rs)) \<and>
         (\<exists>df. create_summary_table rs = Inr df \<and>
               map (\<lambda>row. field row ''Factura'') (records df) = keys rs) \<and>
         (\<exists>metrics shown.
            results_section \<lparr>ss_results = Some rs, ss_processed_at = Some processed_at\<rparr> =
              ((metrics, shown), None) \<and>
            map fst shown = map tab_label (keys rs) \<and>
            map snd shown =
              map (\<lambda>(name, r).
                     [St_text name, badge (field r ''status''), St_code (field r ''data''),
                      St_caption (''Procesado: '' @ field r ''timestamp'')])
                rs)"
proof -
  from assms(2) have ne: "glob_pdf w folder_path \<noteq> []"
    by (auto simp: process_all_invoices_empty)
  with assms(2)
  have rs: "rs = res (run_until w folder_path api_key (length (glob_pdf w folder_path)))"
    by (simp add: process_all_invoices_run Let_def)
  have k: "keys rs = map path_name (glob_pdf w folder_path)"
    unfolding rs by (rule keys_run [OF assms(1)])
  have hf: "\<forall>x \<in> set rs. has_fields (snd x)"
    by (rule run_has_fields [OF assms(2)])
  have rep: "combined_text processed_at rs =
           Inr (report_header processed_at @
                concat (map (\<lambda>(name, r).
                               section_text name (field r ''status'') (field r ''data''))
                          rs))"
    using hf by (simp add: combined_text_def combined_text_loop_closed)
  have tab: "\<exists>df. create_summary_table rs = Inr df \<and>
               map (\<lambda>row. field row ''Factura'') (records df) = keys rs"
    using hf
    by (auto simp: create_summary_table_def summary_loop_closed keys_def field_def getitem_def)
  from hf have "\<forall>r \<in> set (map snd rs). has_fields r" by simp
  from success_count_total [OF this] obtain n where n: "success_count (map snd rs) = Inr n" ..
  let ?shown = "map (\<lambda>(tab, name, r).
           (tab, [St_text name, badge (field r ''status''), St_code (field r ''data''),
                  St_caption (''Procesado: '' @ field r ''timestamp'')]))
      (zip (map tab_label (keys rs)) rs)"
  have tl: "tabs_loop (zip (map tab_label (keys rs)) rs) = (?shown, None)"
    by (rule tabs_loop_closed [OF hf]) (simp add: keys_def)
  have f: "map fst ?shown = map tab_label (keys rs)"
    by (simp add: keys_def zip_map1 zip_same_conv_map comp_def case_prod_unfold)
  have s: "map snd ?shown =
              map (\<lambda>(name, r).
                     [St_text name, badge (field r ''status''), St_code (field r ''data''),
                      St_caption (''Procesado: '' @ field r ''timestamp'')])
                rs"
    by (simp add: keys_def zip_map1 zip_same_conv_map comp_def case_prod_unfold)
  have "rs \<noteq> []"
    using k ne by (auto simp: keys_def)
  then have "results_section \<lparr>ss_results = Some rs, ss_processed_at = Some processed_at\<rparr> =
          (([St_metric ''Total procesadas'' (length rs), St_metric ''Exitosas'' n,
             St_metric ''Errores'' (length rs - n)], ?shown), None)"
    by (simp add: results_section_def n tl Let_def)
  with f s have tabs: "\<exists>metrics shown.
            results_section \<lparr>ss_results = Some rs, ss_processed_at = Some processed_at\<rparr> =
              ((metrics, shown), None) \<and>
            map fst shown = map tab_label (keys rs) \<and>
            map snd shown =
              map (\<lambda>(name, r).
                     [St_text name, badge (field r ''status''), St_code (field r ''data''),
                      St_caption (''Procesado: '' @ field r ''timestamp'')])
                rs"
    by blast
  from k rep tab tabs show ?thesis by blast
qed

theorem outcomes_keep_enumeration_order_witness:
  "distinct (keys (files w_demo)) \<and>
   (\<exists>rs w' evs df.
      process_all_invoices w_demo ''facturas'' ''sk-key'' = (Some rs, w', evs) \<and>
      keys rs = [''a.pdf'', ''b.pdf''] \<and>
      create_summary_table rs = Inr df \<and>
      map (\<lambda>row. field row ''Factura'') (records df) = [''a.pdf'', ''b.pdf''])"
proof -
  have "glob_pdf w_demo ''facturas'' \<noteq> []" by (simp add: glob_w_demo)
  then obtain rs w' evs
    where run: "process_all_invoices w_demo ''facturas'' ''sk-key'' = (Some rs, w', evs)"
    by (simp add: process_all_invoices_run Let_def)
  from outcomes_keep_enumeration_order [OF distinct_w_demo run, of "''2024-01-02 03:04:02''"]
  obtain df where "keys rs = map path_name (glob_pdf w_demo ''facturas'')"
    and "create_summary_table rs = Inr df"
    and "map (\<lambda>row. field row ''Factura'') (records df) = keys rs"
    by blast
  then have "keys rs = [''a.pdf'', ''b.pdf''] \<and> create_summary_table rs = Inr df \<and>
      map (\<lambda>row. field row ''Factura'') (records df) = [''a.pdf'', ''b.pdf'']"
    by (simp add: glob_w_demo path_name_def)
  with run distinct_w_demo show ?thesis
    by (intro conjI exI [of _ rs] exI [of _ w'] exI [of _ evs] exI [of _ df]) simp_all
qed



text \<open>
  C8. On a mapping whose records have the three keys, \<open>create_summary_table\<close> returns
  a table with one row per outcome, in the order of the mapping: as many rows as
  entries, each row with the four columns \<^verbatim>\<open>Factura\<close>, \<^verbatim>\<open>Estado\<close>,
  \<^verbatim>\<open>Fecha Procesamiento\<close>, \<^verbatim>\<open>Resultado\<close> holding the file name, the status, the
  timestamp and the data of the outcome; every key of the mapping is the file name of
  exactly one row.
\<close>

theorem summary_table_has_one_row_per_outcome:
  assumes "distinct (keys rs)" and "\<forall>x \<in> set rs. has_fields (snd x)"
  shows "\<exists>df. create_summary_table rs = Inr df \<and>
           length (records df) = length rs \<and>
           records df =
             map (\<lambda>(name, r).
                    [(''Factura'', name), (''Estado'', field r ''status''),
                     (''Fecha Procesamiento'', field r ''timestamp''),
                     (''Resultado'', field r ''data'')]) rs \<and>
           (\<forall>row \<in> set (records df).
              keys row = [''Factura'', ''Estado'', ''Fecha Procesamiento'', ''Resultado'']) \<and>
           map (\<lambda>row. getitem row ''Factura'') (records df) = map Inr (keys rs) \<and>
           (\<forall>k \<in> set (keys rs).
              length (filter (\<lambda>row. getitem row ''Factura'' = Inr k) (records df)) = 1)"
proof -
  let ?row = "\<lambda>(name, r).
                [(''Factura'', name), (''Estado'', field r ''status''),
                 (''Fecha Procesamiento'', field r ''timestamp''),
                 (''Resultado'', field r ''data'')]"
  have t: "create_summary_table rs = Inr (DataFrame (map ?row rs))"
    using assms(2) by (simp add: create_summary_table_def summary_loop_closed)
  have ks: "\<forall>row \<in> set (map ?row rs).
              keys row = [''Factura'', ''Estado'', ''Fecha Procesamiento'', ''Resultado'']"
    by (auto simp: keys_def)
  have fa: "map (\<lambda>row. getitem row ''Factura'') (map ?row rs) = map Inr (keys rs)"
    by (auto simp: keys_def getitem_def)
  have once: "length (filter (\<lambda>row. getitem row ''Factura'' = Inr k) (map ?row rs)) = 1"
    if "k \<in> set (keys rs)" for k
  proof -
    have "filter (\<lambda>row. getitem row ''Factura'' = Inr k) (map ?row rs) =
          map ?row (filter (\<lambda>x. fst x = k) rs)"
      by (induction rs) (auto simp: getitem_def)
    then have "length (filter (\<lambda>row. getitem row ''Factura'' = Inr k) (map ?row rs)) =
               length (filter (\<lambda>n. n = k) (keys rs))"
      by (simp add: keys_def filter_map comp_def)
    also have "\<dots> = card ({n. n = k} \<inter> set (keys rs))"
      by (rule distinct_length_filter [OF assms(1)])
    also have "{n. n = k} \<inter> set (keys rs) = {k}"
      using that by auto
    finally show ?thesis by simp
  qed
  show ?thesis
    using t ks fa once by simp
qed

theorem summary_table_has_one_row_per_outcome_witness:
  "distinct (keys rs_demo) \<and> list_all (\<lambda>x. has_fields (snd x)) rs_demo \<and>
   create_summary_table rs_demo =
     Inr (DataFrame
       [[(''Factura'', ''a.pdf''), (''Estado'', ''success''),
         (''Fecha Procesamiento'', ''2024-01-02 03:04:00''), (''Resultado'', ''IVA 19%'')],
        [(''Factura'', ''b.pdf''), (''Estado'', ''error''),
         (''Fecha Procesamiento'', ''2024-01-02 03:04:01''), (''Resultado'', ''Error: denied'')]])"
proof -
  have d: "distinct (keys rs_demo)" by (simp add: rs_demo_def keys_def)
  from summary_table_has_one_row_per_outcome [OF d has_fields_rs_demo]
  obtain df where "create_summary_table rs_demo = Inr df"
    and "records df =
             map (\<lambda>(name, r).
                    [(''Factura'', name), (''Estado'', field r ''status''),
                     (''Fecha Procesamiento'', field r ''timestamp''),
                     (''Resultado'', field r ''data'')]) rs_demo"
    by blast
  then have "create_summary_table rs_demo =
     Inr (DataFrame
       [[(''Factura'', ''a.pdf''), (''Estado'', ''success''),
         (''Fecha Procesamiento'', ''2024-01-02 03:04:00''), (''Resultado'', ''IVA 19%'')],
        [(''Factura'', ''b.pdf''), (''Estado'', ''error''),
         (''Fecha Procesamiento'', ''2024-01-02 03:04:01''), (''Resultado'', ''Error: denied'')]])"
    by (cases df) (simp add: rs_demo_def field_def getitem_def)
  with d has_fields_rs_demo show ?thesis by (simp add: list_all_iff)
qed



text \<open>
  C10. Every record of a mapping that the run returns is one of the two dictionaries of
  the loop: the keys \<^verbatim>\<open>status\<close>, \<^verbatim>\<open>data\<close>, \<^verbatim>\<open>timestamp\<close> in this order and no
  other, all values texts, the status \<^verbatim>\<open>success\<close>, or \<^verbatim>\<open>error\<close> with the data
  \<^verbatim>\<open>Error: \<close> followed by the text of an exception. The report and the table read
  these keys only: they return normally on the mapping of a run, and on every mapping
  whose records have the three keys.
\<close>

theorem outcome_records_have_three_fields:
  assumes "process_all_invoices w folder_path api_key = (Some rs, w', evs)"
  shows "(\<forall>x \<in> set rs.
            (\<exists>d t. snd x = [(''status'', ''success''), (''data'', d), (''timestamp'', t)]) \<or>
            (\<exists>e t. snd x = [(''status'', ''error''), (''data'', ''Error: '' @ exc_str e),
                             (''timestamp'', t)])) \<and>
         (\<exists>text. combined_text processed_at rs = Inr text) \<and>
         (\<exists>df. create_summary_table rs = Inr df) \<and>
         (\<forall>rs'. (\<forall>x \<in> set rs'. has_fields (snd x)) \<longrightarrow>
                 (\<exists>text. combined_text processed_at rs' = Inr text) \<and>
                 (\<exists>df. create_summary_table rs' = Inr df))"
proof -
  from assms have ne: "glob_pdf w folder_path \<noteq> []"
    by (auto simp: process_all_invoices_empty)
  with assms have rs: "rs = res (run_until w folder_path api_key (length (glob_pdf w folder_path)))"
    by (simp add: process_all_invoices_run Let_def)
  have shape: "\<forall>x \<in> set rs.
            (\<exists>d t. snd x = [(''status'', ''success''), (''data'', d), (''timestamp'', t)]) \<or>
            (\<exists>e t. snd x = [(''status'', ''error''), (''data'', ''Error: '' @ exc_str e),
                             (''timestamp'', t)])"
    unfolding rs by (rule records_run) (rule recorded_shape)
  have total: "(\<exists>text. combined_text processed_at rs' = Inr text) \<and>
               (\<exists>df. create_summary_table rs' = Inr df)"
    if "\<forall>x \<in> set rs'. has_fields (snd x)" for rs'
    using that
    by (simp add: combined_text_def combined_text_loop_closed create_summary_table_def
        summary_loop_closed)
  from total [OF run_has_fields [OF assms]] shape total show ?thesis
    by blast
qed

theorem outcome_records_have_three_fields_witness:
  "\<exists>rs w' evs.
     process_all_invoices w_demo ''facturas'' ''sk-key'' = (Some rs, w', evs) \<and>
     (\<exists>text. combined_text ''2024-01-02 03:04:05'' rs = Inr text) \<and>
     (\<exists>df. create_summary_table rs = Inr df)"
proof -
  have "glob_pdf w_demo ''facturas'' \<noteq> []" by (simp add: glob_w_demo)
  then obtain rs w' evs
    where run: "process_all_invoices w_demo ''facturas'' ''sk-key'' = (Some rs, w', evs)"
    by (simp add: process_all_invoices_run Let_def)
  from outcome_records_have_three_fields [OF run, of "''2024-01-02 03:04:05''"] run
  show ?thesis by blast
qed

end
